theory Spec2Isabelle
  imports Complex_Main "HOL-Library.AList" "HOL-Library.Sublist"
begin

section \<open>JavaScript values, objects and arrays\<close>

text \<open>
  The option values and item fields are JavaScript primitives (\<open>PropertyValue = string | number\<close>).
  The code only ever compares them, with \<open>===\<close> or with the SameValueZero comparison of
  \<open>Array.prototype.includes\<close> and \<open>Set\<close>. A finite number is a rational (\<open>+0\<close> and \<open>-0\<close> are one
  value under both comparisons; the two infinities behave like any other number and are left
  out). \<open>NaN\<close> is kept apart: \<open>NaN === NaN\<close> is false, while \<open>includes\<close> and \<open>Set\<close> find it.
\<close>

datatype jsvalue = Str string | Num rat | NaN

text \<open>
  A plain object is the list of its own properties in the order of \<open>Object.entries\<close> and
  \<open>Object.keys\<close>: first the keys that are array indices (the canonical decimal numerals below
  \<open>2^32 - 1\<close>) in ascending order, then the other keys in insertion order. A well-formed
  object has no key twice. Reading a property that the object does not have gives, for the
  values compared here, \<open>undefined\<close>, written \<open>None\<close> (a member inherited from
  \<open>Object.prototype\<close> is a function or an object, and like \<open>undefined\<close> it is not strictly
  equal to, nor found among, strings and numbers; where the code tests such a read for
  truthiness, the inherited names are treated apart, see \<open>Object_prototype_keys\<close>).
\<close>

type_synonym 'a obj = "(string \<times> 'a) list"

definition wf_obj :: "'a obj \<Rightarrow> bool" where
  "wf_obj ob = distinct (map fst ob)"

definition get_prop :: "'a obj \<Rightarrow> string \<Rightarrow> 'a option" where
  "get_prop ob key = map_of ob key"

definition digit_of :: "char \<Rightarrow> nat option" where
  "digit_of = map_of
     [(CHR ''0'', 0), (CHR ''1'', 1), (CHR ''2'', 2), (CHR ''3'', 3), (CHR ''4'', 4),
      (CHR ''5'', 5), (CHR ''6'', 6), (CHR ''7'', 7), (CHR ''8'', 8), (CHR ''9'', 9)]"

fun digits_value :: "string \<Rightarrow> nat \<Rightarrow> nat option" where
  "digits_value [] n = Some n"
| "digits_value (c # cs) n =
     (case digit_of c of None \<Rightarrow> None | Some d \<Rightarrow> digits_value cs (10 * n + d))"

text \<open>
  The array index a key denotes, if any: a decimal numeral without a leading zero (\<open>0\<close>
  itself apart) whose value is below \<open>2^32 - 1\<close>.
\<close>

definition array_index :: "string \<Rightarrow> nat option" where
  "array_index key =
     (case key of
        [] \<Rightarrow> None
      | c # cs \<Rightarrow>
          if c = CHR ''0'' \<and> cs \<noteq> [] then None
          else (case digits_value key 0 of
                  None \<Rightarrow> None
                | Some n \<Rightarrow> if n < 4294967295 then Some n else None))"

text \<open>A new array-index key goes before the first key that is no smaller array index.\<close>

fun insert_index :: "nat \<Rightarrow> string \<Rightarrow> 'a \<Rightarrow> 'a obj \<Rightarrow> 'a obj" where
  "insert_index i key v [] = [(key, v)]"
| "insert_index i key v ((k, x) # ob) =
     (case array_index k of
        Some j \<Rightarrow> if j < i then (k, x) # insert_index i key v ob else (key, v) # (k, x) # ob
      | None \<Rightarrow> (key, v) # (k, x) # ob)"

text \<open>
  \<open>{...ob, [key]: v}\<close> and \<open>ob[key] = v\<close>: an existing key keeps its place; a new key goes
  last, or among the array indices if it is one.
\<close>

definition set_prop :: "'a obj \<Rightarrow> string \<Rightarrow> 'a \<Rightarrow> 'a obj" where
  "set_prop ob key v =
     (if key \<in> set (map fst ob) then AList.update key v ob
      else case array_index key of
             None \<Rightarrow> ob @ [(key, v)]
           | Some i \<Rightarrow> insert_index i key v ob)"

text \<open>
  The names a plain object inherits from \<open>Object.prototype\<close>. Read from an object that has
  no own property of that name, each gives a truthy value (a function; for \<open>__proto__\<close> the
  prototype itself) that has no property \<open>options\<close> and no method \<open>filter\<close>.
\<close>

definition Object_prototype_keys :: "string list" where
  "Object_prototype_keys =
     [''constructor'', ''hasOwnProperty'', ''isPrototypeOf'', ''propertyIsEnumerable'',
      ''toLocaleString'', ''toString'', ''valueOf'', ''__proto__'',
      ''__defineGetter__'', ''__defineSetter__'', ''__lookupGetter__'', ''__lookupSetter__'']"

definition fromEntries :: "(string \<times> 'a) list \<Rightarrow> 'a obj" where
  "fromEntries es = foldl (\<lambda>acc (key, v). set_prop acc key v) [] es"

text \<open>\<open>x === v\<close> where \<open>x\<close> may be \<open>undefined\<close> and \<open>v\<close> is a value.\<close>

definition strict_eq :: "jsvalue option \<Rightarrow> jsvalue \<Rightarrow> bool" where
  "strict_eq x v = (x = Some v \<and> v \<noteq> NaN)"

text \<open>\<open>xs.includes(x)\<close>: SameValueZero, which on this value type is equality.\<close>

definition array_includes :: "'a list \<Rightarrow> 'a \<Rightarrow> bool" where
  "array_includes xs x = (x \<in> set xs)"

text \<open>\<open>[...new Set(xs)]\<close>: the elements in order of first occurrence.\<close>

definition set_add :: "'a list \<Rightarrow> 'a \<Rightarrow> 'a list" where
  "set_add acc x = (if array_includes acc x then acc else acc @ [x])"

definition new_Set :: "'a list \<Rightarrow> 'a list" where
  "new_Set xs = foldl set_add [] xs"

type_synonym item = "jsvalue obj"

definition ANY_OPTION :: jsvalue where
  "ANY_OPTION = Str ''Any''"

datatype error = TypeError


section \<open>The naive store: \<open>createFilterStore\<close> (src/lib/index.ts)\<close>

text \<open>
  \<open>FilterDimension\<close>: the \<open>options\<close> field is absent from an entry that \<open>select\<close> creates
  for a name the configuration does not have (the spread of \<open>undefined\<close> is empty).
\<close>

record FilterDimension =
  options :: "jsvalue list option"
  selected :: jsvalue

type_synonym FilterConfig = "jsvalue list obj"
type_synonym dimensions = "FilterDimension obj"

definition initialDimensions :: "FilterConfig \<Rightarrow> dimensions" where
  "initialDimensions config =
     fromEntries (map (\<lambda>(key, opts). (key, \<lparr>options = Some opts, selected = ANY_OPTION\<rparr>)) config)"

text \<open>
  The writable store holds one \<open>dimensions\<close> value; \<open>store.update f\<close> replaces it by \<open>f\<close> of
  it and \<open>store.set\<close> by the given value, so the store is passed and returned.
\<close>

definition select :: "dimensions \<Rightarrow> string \<Rightarrow> jsvalue \<Rightarrow> dimensions" where
  "select dims dimension v =
     set_prop dims dimension
       (case get_prop dims dimension of
          None \<Rightarrow> \<lparr>options = None, selected = v\<rparr>
        | Some d \<Rightarrow> d\<lparr>selected := v\<rparr>)"

text \<open>\<open>config[dimension].filter\<close> throws a TypeError when the configuration lacks the dimension.\<close>

definition getAvailableOptions ::
  "item list \<Rightarrow> FilterConfig \<Rightarrow> dimensions \<Rightarrow> string \<Rightarrow> error + jsvalue list" where
  "getAvailableOptions items config store dimension =
     (let otherDimensions =
            map (\<lambda>(key, dim). (key, selected dim)) (filter (\<lambda>(key, dim). key \<noteq> dimension) store);
          availableItems = filter (\<lambda>it. list_all (\<lambda>(key, sel).
              sel = ANY_OPTION \<or> strict_eq (get_prop it key) sel) otherDimensions) items;
          possibleValues = new_Set (map (\<lambda>it. get_prop it dimension) availableItems)
      in case get_prop config dimension of
           None \<Rightarrow> Inl TypeError
         | Some opts \<Rightarrow> Inr (filter (\<lambda>option. array_includes possibleValues (Some option)) opts))"

definition filteredItems :: "item list \<Rightarrow> dimensions \<Rightarrow> item list" where
  "filteredItems items store =
     filter (\<lambda>it. list_all (\<lambda>(key, dim). selected dim = ANY_OPTION
                                \<or> strict_eq (get_prop it key) (selected dim)) store) items"

definition reset :: "FilterConfig \<Rightarrow> dimensions \<Rightarrow> dimensions" where
  "reset config store = initialDimensions config"


section \<open>The auto-reconciling store: \<open>createMultiFilterStore\<close> (MultiFilterStore.ts)\<close>

record FilterProperty =
  prop_name :: string
  prop_options :: "jsvalue list"

type_synonym FilterState = "jsvalue obj"
type_synonym properties = "FilterProperty obj"

definition initialState :: "properties \<Rightarrow> FilterState" where
  "initialState props = foldl (\<lambda>acc key. set_prop acc key ANY_OPTION) [] (map fst props)"

text \<open>
  The store is the writable \<open>filterStore\<close> together with the variable \<open>currentState\<close>, which
  a subscriber registered at construction overwrites each time the store is set. A writable
  of \<open>svelte/store\<close> implements \<open>update f\<close> as \<open>set (f value)\<close>, and \<open>set\<close> stores the value
  and then calls the subscribers; being objects, two states always count as different. The
  subscriber thus runs after the function given to \<open>update\<close> has returned: while that
  function runs, \<open>currentState\<close> is still the value before the update.
\<close>

record multi_store =
  filterStore :: FilterState
  currentState :: FilterState

definition store_set :: "FilterState \<Rightarrow> multi_store \<Rightarrow> multi_store" where
  "store_set v s = s\<lparr>filterStore := v, currentState := v\<rparr>"

definition createMultiFilterStore :: "properties \<Rightarrow> multi_store" where
  "createMultiFilterStore props =
     \<lparr>filterStore = initialState props, currentState = initialState props\<rparr>"

definition getExistingValues :: "item list \<Rightarrow> string \<Rightarrow> jsvalue option list" where
  "getExistingValues items propertyName = new_Set (map (\<lambda>it. get_prop it propertyName) items)"

text \<open>The general algorithm: what \<open>getAvailableOptions\<close> does after its early returns.\<close>

definition availableOptions_general ::
  "item list \<Rightarrow> FilterProperty \<Rightarrow> FilterState \<Rightarrow> string \<Rightarrow> jsvalue list" where
  "availableOptions_general items property cur propertyName =
     (let filteredItems = filter (\<lambda>it. list_all (\<lambda>(key, v).
              if key = propertyName \<or> v = ANY_OPTION then True
              else strict_eq (get_prop it key) v) cur) items;
          availableOptions = new_Set (map (\<lambda>it. get_prop it propertyName) filteredItems)
      in filter (\<lambda>option. array_includes availableOptions (Some option)) (prop_options property))"

text \<open>
  \<open>properties[propertyName]\<close> is \<open>undefined\<close>, and the result \<open>[]\<close>, only for a name that is
  neither configured nor inherited; for an inherited name the guard \<open>!property\<close> lets the
  value pass and \<open>property.options.filter\<close> throws a TypeError.
\<close>

definition getAvailableOptions_multi ::
  "item list \<Rightarrow> properties \<Rightarrow> FilterState \<Rightarrow> string \<Rightarrow> error + jsvalue list" where
  "getAvailableOptions_multi items props cur propertyName =
     (case get_prop props propertyName of
        None \<Rightarrow> if propertyName \<in> set Object_prototype_keys then Inl TypeError else Inr []
      | Some property \<Rightarrow>
          (let existingValues = getExistingValues items propertyName;
               otherProperties = filter (\<lambda>key. key \<noteq> propertyName) (map fst cur);
               allOthersAny = list_all (\<lambda>prop. get_prop cur prop = Some ANY_OPTION) otherProperties
           in if allOthersAny
              then Inr (filter (\<lambda>option. array_includes existingValues (Some option))
                          (prop_options property))
              else Inr (availableOptions_general items property cur propertyName)))"

definition getFilteredItems :: "item list \<Rightarrow> FilterState \<Rightarrow> item list" where
  "getFilteredItems items cur =
     filter (\<lambda>it. list_all (\<lambda>(key, v). v = ANY_OPTION \<or> strict_eq (get_prop it key) v) cur) items"

text \<open>
  The body of the \<open>forEach\<close> in \<open>updateProperty\<close>, for one key. \<open>getAvailableOptions\<close> reads
  \<open>currentState\<close> (here \<open>cur\<close>), not \<open>newState\<close>; when it throws, so does the body.
\<close>

definition resetInvalid ::
  "item list \<Rightarrow> properties \<Rightarrow> FilterState \<Rightarrow> string \<Rightarrow> FilterState \<Rightarrow> string
     \<Rightarrow> error + FilterState" where
  "resetInvalid items props cur propertyName newState key =
     (if key = propertyName then Inr newState
      else case getAvailableOptions_multi items props cur key of
        Inl e \<Rightarrow> Inl e
      | Inr availableOptions \<Rightarrow>
        (case get_prop newState key of
           Some v \<Rightarrow>
             if v \<noteq> ANY_OPTION \<and> \<not> array_includes availableOptions v
             then Inr (set_prop newState key ANY_OPTION) else Inr newState
         | None \<Rightarrow> Inr (set_prop newState key ANY_OPTION)))"

text \<open>\<open>keys.forEach\<close> with that body: the first exception ends the loop.\<close>

fun forEach_resetInvalid ::
  "item list \<Rightarrow> properties \<Rightarrow> FilterState \<Rightarrow> string \<Rightarrow> FilterState \<Rightarrow> string list
     \<Rightarrow> error + FilterState" where
  "forEach_resetInvalid items props cur propertyName newState [] = Inr newState"
| "forEach_resetInvalid items props cur propertyName newState (key # keys) =
     (case resetInvalid items props cur propertyName newState key of
        Inl e \<Rightarrow> Inl e
      | Inr newState' \<Rightarrow> forEach_resetInvalid items props cur propertyName newState' keys)"

text \<open>
  \<open>filterStore.update\<close> sets the store to what the callback returns; when the callback
  throws, the exception leaves \<open>updateProperty\<close> and nothing is set.
\<close>

definition updateProperty ::
  "item list \<Rightarrow> properties \<Rightarrow> string \<Rightarrow> jsvalue \<Rightarrow> multi_store \<Rightarrow> error + multi_store" where
  "updateProperty items props propertyName v s =
     (let state = filterStore s in
      case forEach_resetInvalid items props (currentState s) propertyName
             (set_prop state propertyName v) (map fst state) of
        Inl e \<Rightarrow> Inl e
      | Inr newState \<Rightarrow> Inr (store_set newState s))"

text \<open>The store a caller holds after a call that returned a new store or threw.\<close>

definition store_after :: "multi_store \<Rightarrow> error + multi_store \<Rightarrow> multi_store" where
  "store_after s r = (case r of Inl e \<Rightarrow> s | Inr s' \<Rightarrow> s')"

definition reset_multi :: "properties \<Rightarrow> multi_store \<Rightarrow> multi_store" where
  "reset_multi props s = store_set (initialState props) s"


section \<open>The example of the documentation\<close>

definition products :: "item list" where
  "products =
     [[(''category'', Str ''Shirt''), (''color'', Str ''Red'')],
      [(''category'', Str ''Pants''), (''color'', Str ''Blue'')],
      [(''category'', Str ''Shirt''), (''color'', Str ''Black'')]]"

definition config0 :: FilterConfig where
  "config0 =
     [(''category'', [Str ''Shirt'', Str ''Pants'', Str ''Jacket'']),
      (''color'', [Str ''Red'', Str ''Blue'', Str ''Black''])]"

definition properties0 :: properties where
  "properties0 =
     [(''category'', \<lparr>prop_name = ''Category'',
                      prop_options = [Str ''Shirt'', Str ''Pants'', Str ''Jacket'']\<rparr>),
      (''color'', \<lparr>prop_name = ''Color'',
                   prop_options = [Str ''Red'', Str ''Blue'', Str ''Black'']\<rparr>)]"


section \<open>Objects, arrays and sets: basic facts\<close>

lemma set_foldl_set_add: "set (foldl set_add acc xs) = set acc \<union> set xs"
  by (induction xs arbitrary: acc) (auto simp: set_add_def array_includes_def)

lemma set_new_Set: "set (new_Set xs) = set xs"
  by (simp add: new_Set_def set_foldl_set_add)

lemma includes_new_Set: "array_includes (new_Set xs) x = (x \<in> set xs)"
  by (simp add: array_includes_def set_new_Set)

lemma map_of_insert_index:
  "k \<notin> set (map fst ob) \<Longrightarrow>
   map_of (insert_index i k v ob) k' = (if k' = k then Some v else map_of ob k')"
  by (induction ob) (auto split: option.split)

lemma set_insert_index: "set (insert_index i k v ob) = insert (k, v) (set ob)"
  by (induction ob) (auto split: option.splits if_splits)

lemma filter_insert_index:
  "filter (\<lambda>(k', x). k' \<noteq> k) (insert_index i k v ob) = filter (\<lambda>(k', x). k' \<noteq> k) ob"
  by (induction ob) (auto split: option.splits if_splits)

lemma filter_update:
  "filter (\<lambda>(k', x). k' \<noteq> k) (AList.update k v ob) = filter (\<lambda>(k', x). k' \<noteq> k) ob"
  by (induction ob) auto

lemma get_set_prop: "get_prop (set_prop ob k v) k' = (if k' = k then Some v else get_prop ob k')"
proof (cases "k \<in> set (map fst ob)")
  case True
  then show ?thesis
    by (simp add: get_prop_def set_prop_def update_conv')
next
  case False
  then have "map_of ob k = None"
    by (simp add: map_of_eq_None_iff)
  with False show ?thesis
    by (simp add: get_prop_def set_prop_def map_of_insert_index map_add_def split: option.split)
qed

text \<open>Writing a property leaves the other entries, and their order, as they were.\<close>

lemma filter_others_set_prop:
  "filter (\<lambda>(k, x). k \<noteq> d) (set_prop ob d y) = filter (\<lambda>(k, x). k \<noteq> d) ob"
  by (simp add: set_prop_def filter_update filter_insert_index split: option.split)


lemma keys_set_prop_old:
  "k \<in> set (map fst ob) \<Longrightarrow> map fst (set_prop ob k v) = map fst ob"
  by (simp add: set_prop_def update_keys)

lemma set_set_prop_new:
  "k \<notin> set (map fst ob) \<Longrightarrow> set (set_prop ob k v) = insert (k, v) (set ob)"
  by (auto simp: set_prop_def set_insert_index split: option.split)



lemma set_set_prop_subset: "set (set_prop ob k v) \<subseteq> insert (k, v) (set ob)"
proof (cases "k \<in> set (map fst ob)")
  case True
  have "set (AList.update k v ob) \<subseteq> insert (k, v) (set ob)"
    by (induction ob) auto
  with True show ?thesis by (simp add: set_prop_def)
next
  case False
  then show ?thesis by (simp add: set_set_prop_new)
qed

lemma wf_set_prop: "wf_obj ob \<Longrightarrow> wf_obj (set_prop ob k v)"
proof (cases "k \<in> set (map fst ob)")
  case True
  assume "wf_obj ob"
  with True show ?thesis by (simp add: wf_obj_def keys_set_prop_old)
next
  case False
  assume wf: "wf_obj ob"
  have "distinct (map fst (insert_index i k v ob))" if "distinct (map fst ob)" "k \<notin> set (map fst ob)" for i
    using that by (induction ob) (auto simp: set_insert_index image_iff split: option.split)
  with False wf show ?thesis
    by (simp add: wf_obj_def set_prop_def split: option.split)
qed

lemma list_all_set_prop:
  "list_all Q ob \<Longrightarrow> Q (k, v) \<Longrightarrow> list_all Q (set_prop ob k v)"
  using set_set_prop_subset [of ob k v] by (auto simp: list_all_iff)

lemma list_all_skip_set_prop:
  assumes "\<And>x. Q (d, x)"
  shows "list_all Q (set_prop ob d y) = list_all Q ob"
proof -
  have "list_all Q xs = list_all Q (filter (\<lambda>(k, x). k \<noteq> d) xs)" for xs
    using assms by (auto simp: list_all_iff)
  then show ?thesis
    by (metis filter_others_set_prop)
qed


lemma wf_entry_iff: "wf_obj ob \<Longrightarrow> ((k, v) \<in> set ob) = (get_prop ob k = Some v)"
  by (simp add: wf_obj_def get_prop_def)

lemma subseq_filter_mono:
  "(\<And>x. x \<in> set xs \<Longrightarrow> P x \<Longrightarrow> Q x) \<Longrightarrow> subseq (filter P xs) (filter Q xs)"
  by (induction xs) (auto intro: subseq_Cons')

lemma list_all_entries:
  "wf_obj ob \<Longrightarrow> list_all (\<lambda>(key, x). P key x) ob = (\<forall>key x. get_prop ob key = Some x \<longrightarrow> P key x)"
  by (auto simp: list_all_iff wf_entry_iff)

text \<open>An array-index key is listed before the keys that are none, and in numeric order.\<close>

lemma set_prop_array_index_example:
  "set_prop (set_prop (set_prop [(''category'', a), (''color'', b)] ''10'' c) ''2'' d) ''x'' e
     = [(''2'', d), (''10'', c), (''category'', a), (''color'', b), (''x'', e)]"
  by (simp add: set_prop_def array_index_def digit_of_def)

lemma fromEntries_subset_aux:
  "set (foldl (\<lambda>acc (key, v). set_prop acc key v) acc es) \<subseteq> set acc \<union> set es"
proof (induction es arbitrary: acc)
  case Nil
  then show ?case by simp
next
  case (Cons e es)
  obtain k v where e: "e = (k, v)" by (cases e)
  have "set (foldl (\<lambda>acc (key, v). set_prop acc key v) (set_prop acc k v) es)
          \<subseteq> set (set_prop acc k v) \<union> set es"
    by (rule Cons.IH)
  with set_set_prop_subset [of acc k v] show ?case
    by (auto simp: e)
qed

lemma set_fromEntries: "set (fromEntries es) \<subseteq> set es"
  using fromEntries_subset_aux [of "[]" es] by (simp add: fromEntries_def)

lemma initialDimensions_selected:
  "(key, fd) \<in> set (initialDimensions config) \<Longrightarrow> selected fd = ANY_OPTION"
  using set_fromEntries [of "map (\<lambda>(key, opts). (key, \<lparr>options = Some opts, selected = ANY_OPTION\<rparr>)) config"]
  by (auto simp: initialDimensions_def)

lemma initialState_aux:
  "\<forall>(key, v) \<in> set acc. v = ANY_OPTION \<Longrightarrow>
   \<forall>(key, v) \<in> set (foldl (\<lambda>acc key. set_prop acc key ANY_OPTION) acc ks). v = ANY_OPTION"
proof (induction ks arbitrary: acc)
  case Nil
  then show ?case by simp
next
  case (Cons k ks)
  have "\<forall>(key, v) \<in> set (set_prop acc k ANY_OPTION). v = ANY_OPTION"
    using Cons.prems set_set_prop_subset [of acc k ANY_OPTION] by auto
  then show ?case using Cons.IH by simp
qed

lemma initialState_any: "(key, v) \<in> set (initialState props) \<Longrightarrow> v = ANY_OPTION"
  using initialState_aux [of "[]" "map fst props"] by (auto simp: initialState_def)

lemma filteredItems_all_any:
  "(\<And>key fd. (key, fd) \<in> set store \<Longrightarrow> selected fd = ANY_OPTION) \<Longrightarrow>
   filteredItems items store = items"
  by (auto simp: filteredItems_def list_all_iff intro!: filter_True)

lemma getFilteredItems_all_any:
  "(\<And>key v. (key, v) \<in> set cur \<Longrightarrow> v = ANY_OPTION) \<Longrightarrow> getFilteredItems items cur = items"
  by (auto simp: getFilteredItems_def list_all_iff intro!: filter_True)

subsection \<open>Construction\<close>






subsection \<open>Evaluation on the examples\<close>

lemmas example_defs = products_def config0_def properties0_def initialDimensions_def initialState_def
  fromEntries_def set_prop_def array_index_def digit_of_def get_prop_def wf_obj_def ANY_OPTION_def
  select_def reset_def reset_multi_def store_set_def createMultiFilterStore_def

lemmas eval_defs = getAvailableOptions_def getAvailableOptions_multi_def availableOptions_general_def
  getExistingValues_def new_Set_def set_add_def array_includes_def strict_eq_def Let_def
  Object_prototype_keys_def resetInvalid_def updateProperty_def store_after_def


section \<open>Claims\<close>

subsection \<open>Filtered items\<close>

text \<open>
  C8. In a Filter State whose every selection is \<open>'Any'\<close>, the filtered items are the whole
  item collection in its order, in both stores; in particular after \<open>reset\<close>, whatever the
  store held before.
\<close>

theorem all_any_returns_all_items:
  "((\<forall>key dim. get_prop store key = Some dim \<longrightarrow> selected dim = ANY_OPTION) \<and> wf_obj store
      \<longrightarrow> filteredItems items store = items)
   \<and> ((\<forall>key v. get_prop cur key = Some v \<longrightarrow> v = ANY_OPTION) \<and> wf_obj cur
      \<longrightarrow> getFilteredItems items cur = items)
   \<and> filteredItems items (reset config store') = items
   \<and> getFilteredItems items (currentState (reset_multi props s)) = items
   \<and> getFilteredItems items (filterStore (reset_multi props s)) = items"
proof (intro conjI impI)
  assume "(\<forall>key dim. get_prop store key = Some dim \<longrightarrow> selected dim = ANY_OPTION) \<and> wf_obj store"
  then show "filteredItems items store = items"
    by (intro filteredItems_all_any) (simp add: wf_entry_iff)
next
  assume "(\<forall>key v. get_prop cur key = Some v \<longrightarrow> v = ANY_OPTION) \<and> wf_obj cur"
  then show "getFilteredItems items cur = items"
    by (intro getFilteredItems_all_any) (simp add: wf_entry_iff)
next
  show "filteredItems items (reset config store') = items"
    unfolding reset_def by (intro filteredItems_all_any) (rule initialDimensions_selected)
next
  show "getFilteredItems items (currentState (reset_multi props s)) = items"
    unfolding reset_multi_def store_set_def
    by (intro getFilteredItems_all_any) (auto dest: initialState_any)
next
  show "getFilteredItems items (filterStore (reset_multi props s)) = items"
    unfolding reset_multi_def store_set_def
    by (intro getFilteredItems_all_any) (auto dest: initialState_any)
qed

theorem all_any_returns_all_items_witness:
  "wf_obj (initialDimensions config0)
   \<and> filteredItems products (initialDimensions config0) = products
   \<and> wf_obj (initialState properties0)
   \<and> getFilteredItems products (initialState properties0) = products
   \<and> filteredItems products (reset config0 (select (initialDimensions config0) ''color'' (Str ''Blue''))) = products"
proof -
  have wf1: "wf_obj (initialDimensions config0)"
    by (simp add: example_defs)
  have any1: "\<forall>key fd. get_prop (initialDimensions config0) key = Some fd \<longrightarrow> selected fd = ANY_OPTION"
    by (auto simp: example_defs split: if_splits)
  have wf2: "wf_obj (initialState properties0)"
    by (simp add: example_defs)
  have any2: "\<forall>key v. get_prop (initialState properties0) key = Some v \<longrightarrow> v = ANY_OPTION"
    by (auto simp: example_defs split: if_splits)
  from all_any_returns_all_items [of "initialDimensions config0" products "initialState properties0"
      config0 "select (initialDimensions config0) ''color'' (Str ''Blue'')"]
    wf1 any1 wf2 any2
  show ?thesis by simp
qed

text \<open>
  C1. The filtered items of either store are exactly the items, in their original order, for
  which every dimension of the state is \<open>'Any'\<close> or has the item's field of that name strictly
  equal (\<open>===\<close>) to its selection.
\<close>

theorem filtered_items_spec:
  "(wf_obj store \<longrightarrow>
      filteredItems items store =
        filter (\<lambda>it. \<forall>key fd. get_prop store key = Some fd \<longrightarrow>
                  selected fd = ANY_OPTION \<or> strict_eq (get_prop it key) (selected fd)) items)
   \<and> subseq (filteredItems items store) items
   \<and> (wf_obj cur \<longrightarrow>
      getFilteredItems items cur =
        filter (\<lambda>it. \<forall>key v. get_prop cur key = Some v \<longrightarrow>
                  v = ANY_OPTION \<or> strict_eq (get_prop it key) v) items)
   \<and> subseq (getFilteredItems items cur) items"
proof (intro conjI impI)
  assume "wf_obj store"
  then show "filteredItems items store =
        filter (\<lambda>it. \<forall>key fd. get_prop store key = Some fd \<longrightarrow>
                  selected fd = ANY_OPTION \<or> strict_eq (get_prop it key) (selected fd)) items"
    unfolding filteredItems_def by (simp add: list_all_entries)
next
  assume "wf_obj cur"
  then show "getFilteredItems items cur =
        filter (\<lambda>it. \<forall>key v. get_prop cur key = Some v \<longrightarrow>
                  v = ANY_OPTION \<or> strict_eq (get_prop it key) v) items"
    unfolding getFilteredItems_def by (simp add: list_all_entries)
next
  show "subseq (filteredItems items store) items"
    by (simp add: filteredItems_def)
next
  show "subseq (getFilteredItems items cur) items"
    by (simp add: getFilteredItems_def)
qed

theorem filtered_items_spec_witness:
  "wf_obj (select (initialDimensions config0) ''category'' (Str ''Shirt''))
   \<and> filter (\<lambda>it. \<forall>key fd.
          get_prop (select (initialDimensions config0) ''category'' (Str ''Shirt'')) key = Some fd \<longrightarrow>
          selected fd = ANY_OPTION \<or> strict_eq (get_prop it key) (selected fd)) products
       = [[(''category'', Str ''Shirt''), (''color'', Str ''Red'')],
          [(''category'', Str ''Shirt''), (''color'', Str ''Black'')]]
   \<and> wf_obj (set_prop (initialState properties0) ''color'' (Str ''Blue''))
   \<and> filter (\<lambda>it. \<forall>key v.
          get_prop (set_prop (initialState properties0) ''color'' (Str ''Blue'')) key = Some v \<longrightarrow>
          v = ANY_OPTION \<or> strict_eq (get_prop it key) v) products
       = [[(''category'', Str ''Pants''), (''color'', Str ''Blue'')]]"
proof -
  let ?store = "select (initialDimensions config0) ''category'' (Str ''Shirt'')"
  let ?cur = "set_prop (initialState properties0) ''color'' (Str ''Blue'')"
  have wf1: "wf_obj ?store" by (simp add: example_defs)
  have wf2: "wf_obj ?cur" by (simp add: example_defs)
  have e1: "filteredItems products ?store =
      [[(''category'', Str ''Shirt''), (''color'', Str ''Red'')],
       [(''category'', Str ''Shirt''), (''color'', Str ''Black'')]]"
    by (simp add: example_defs filteredItems_def strict_eq_def)
  have e2: "getFilteredItems products ?cur = [[(''category'', Str ''Pants''), (''color'', Str ''Blue'')]]"
    by (simp add: example_defs getFilteredItems_def strict_eq_def)
  from filtered_items_spec [of ?store products ?cur] wf1 wf2 e1 e2
  show ?thesis by simp
qed


subsection \<open>Relaxing a selection\<close>

lemma resetInvalid_cases:
  "(\<exists>e. resetInvalid items props cur d ns key = Inl e)
   \<or> resetInvalid items props cur d ns key = Inr ns
   \<or> resetInvalid items props cur d ns key = Inr (set_prop ns key ANY_OPTION)"
  by (simp add: resetInvalid_def split: option.split sum.split)

lemma forEach_resetInvalid_list_all:
  assumes "\<And>key. Q (key, ANY_OPTION)"
  shows "forEach_resetInvalid items props cur d ns keys = Inr ns' \<Longrightarrow> list_all Q ns
    \<Longrightarrow> list_all Q ns'"
proof (induction keys arbitrary: ns)
  case Nil
  then show ?case by simp
next
  case (Cons k keys)
  from Cons.prems(1) obtain ns1 where step: "resetInvalid items props cur d ns k = Inr ns1"
    and rest: "forEach_resetInvalid items props cur d ns1 keys = Inr ns'"
    by (auto split: sum.splits)
  have "list_all Q (set_prop ns k ANY_OPTION)"
    by (intro list_all_set_prop Cons.prems assms)
  with step Cons.prems(2) have "list_all Q ns1"
    using resetInvalid_cases [of items props cur d ns k] by auto
  with rest show ?case
    by (rule Cons.IH)
qed

lemma filteredItems_select_any:
  "subseq (filteredItems items store) (filteredItems items (select store d ANY_OPTION))"
  unfolding filteredItems_def select_def
  by (rule subseq_filter_mono) (auto intro!: list_all_set_prop split: option.split)

lemma getFilteredItems_set_any:
  "subseq (getFilteredItems items cur) (getFilteredItems items (set_prop cur d ANY_OPTION))"
  unfolding getFilteredItems_def
  by (rule subseq_filter_mono) (auto intro!: list_all_set_prop)

lemma getFilteredItems_update_any:
  "subseq (getFilteredItems items (filterStore s))
     (getFilteredItems items
        (filterStore (store_after s (updateProperty items props d ANY_OPTION s))))"
proof (cases "updateProperty items props d ANY_OPTION s")
  case (Inl e)
  then show ?thesis
    by (simp add: store_after_def)
next
  case (Inr s')
  then obtain ns' where loop: "forEach_resetInvalid items props (currentState s) d
        (set_prop (filterStore s) d ANY_OPTION) (map fst (filterStore s)) = Inr ns'"
    and s': "filterStore s' = ns'"
    by (auto simp: updateProperty_def Let_def store_set_def split: sum.splits)
  have "subseq (getFilteredItems items (filterStore s)) (getFilteredItems items ns')"
    unfolding getFilteredItems_def
  proof (rule subseq_filter_mono)
    fix it
    assume "list_all (\<lambda>(key, v). v = ANY_OPTION \<or> strict_eq (get_prop it key) v) (filterStore s)"
    then have "list_all (\<lambda>(key, v). v = ANY_OPTION \<or> strict_eq (get_prop it key) v)
        (set_prop (filterStore s) d ANY_OPTION)"
      by (rule list_all_set_prop) simp
    with loop show "list_all (\<lambda>(key, v). v = ANY_OPTION \<or> strict_eq (get_prop it key) v) ns'"
      by (rule forEach_resetInvalid_list_all [rotated]) simp
  qed
  with Inr s' show ?thesis
    by (simp add: store_after_def)
qed

text \<open>
  C10. Relaxing a constraint never removes results: the filtered items under a state are a
  subsequence of the filtered items under the state with one dimension set to \<open>'Any'\<close>, by
  \<open>select\<close> in the naive store, and in the reconciling store both for the plain replacement
  and for the store that a call of \<open>updateProperty\<close> leaves, whether it returns or throws.
\<close>

theorem relaxing_never_removes_results:
  "subseq (filteredItems items store) (filteredItems items (select store d ANY_OPTION))
   \<and> subseq (getFilteredItems items cur) (getFilteredItems items (set_prop cur d ANY_OPTION))
   \<and> subseq (getFilteredItems items (filterStore s))
        (getFilteredItems items
           (filterStore (store_after s (updateProperty items props d ANY_OPTION s))))"
  by (intro conjI filteredItems_select_any getFilteredItems_set_any getFilteredItems_update_any)

theorem relaxing_never_removes_results_witness:
  "filteredItems products
     (select (select (initialDimensions config0) ''category'' (Str ''Shirt'')) ''color'' (Str ''Blue'')) = []
   \<and> subseq []
        (filteredItems products
          (select (select (select (initialDimensions config0) ''category'' (Str ''Shirt''))
             ''color'' (Str ''Blue'')) ''color'' ANY_OPTION))
   \<and> filteredItems products
        (select (select (select (initialDimensions config0) ''category'' (Str ''Shirt''))
           ''color'' (Str ''Blue'')) ''color'' ANY_OPTION)
       = [[(''category'', Str ''Shirt''), (''color'', Str ''Red'')],
          [(''category'', Str ''Shirt''), (''color'', Str ''Black'')]]"
proof -
  let ?store = "select (select (initialDimensions config0) ''category'' (Str ''Shirt'')) ''color'' (Str ''Blue'')"
  have e1: "filteredItems products ?store = []"
    by (simp add: example_defs filteredItems_def strict_eq_def)
  have e2: "filteredItems products (select ?store ''color'' ANY_OPTION)
       = [[(''category'', Str ''Shirt''), (''color'', Str ''Red'')],
          [(''category'', Str ''Shirt''), (''color'', Str ''Black'')]]"
    by (simp add: example_defs filteredItems_def strict_eq_def)
  from relaxing_never_removes_results [of products ?store "''color''"]
  have "subseq (filteredItems products ?store) (filteredItems products (select ?store ''color'' ANY_OPTION))"
    by simp
  with e1 e2 show ?thesis by simp
qed

text \<open>
  C9. In the naive store, \<open>select\<close> on a dimension the state has overwrites that dimension's
  selection and nothing else: its options list, every other dimension's entry and the order
  of the dimensions stay as they were, whatever the items are.
\<close>

theorem select_changes_only_selection:
  "get_prop store d = Some fd \<Longrightarrow>
     get_prop (select store d v) d = Some (fd\<lparr>selected := v\<rparr>)
   \<and> (\<forall>k. k \<noteq> d \<longrightarrow> get_prop (select store d v) k = get_prop store k)
   \<and> (\<forall>k x. get_prop store k = Some x \<longrightarrow>
         (\<exists>y. get_prop (select store d v) k = Some y \<and> options y = options x))
   \<and> map fst (select store d v) = map fst store
   \<and> (wf_obj store \<longrightarrow> wf_obj (select store d v))"
proof (intro conjI allI impI)
  assume d: "get_prop store d = Some fd"
  then show "get_prop (select store d v) d = Some (fd\<lparr>selected := v\<rparr>)"
    by (simp add: select_def get_set_prop)
  show "get_prop (select store d v) k = get_prop store k" if "k \<noteq> d" for k
    using that by (simp add: select_def get_set_prop)
  show "\<exists>y. get_prop (select store d v) k = Some y \<and> options y = options x"
    if "get_prop store k = Some x" for k x
    using that d by (cases "k = d") (simp_all add: select_def get_set_prop)
  from d have "d \<in> set (map fst store)"
    by (auto simp: get_prop_def dest: map_of_SomeD intro: rev_image_eqI)
  then show "map fst (select store d v) = map fst store"
    by (simp add: select_def keys_set_prop_old)
  show "wf_obj (select store d v)" if "wf_obj store"
    using that by (simp add: select_def wf_set_prop)
qed

theorem select_changes_only_selection_witness:
  "get_prop (select (initialDimensions config0) ''category'' (Str ''Shirt'')) ''color''
     = Some \<lparr>options = Some [Str ''Red'', Str ''Blue'', Str ''Black''], selected = Str ''Any''\<rparr>
   \<and> get_prop (select (select (initialDimensions config0) ''category'' (Str ''Shirt''))
                  ''color'' (Str ''Blue'')) ''color''
     = Some \<lparr>options = Some [Str ''Red'', Str ''Blue'', Str ''Black''], selected = Str ''Blue''\<rparr>
   \<and> get_prop (select (select (initialDimensions config0) ''category'' (Str ''Shirt''))
                  ''color'' (Str ''Blue'')) ''category''
     = Some \<lparr>options = Some [Str ''Shirt'', Str ''Pants'', Str ''Jacket''], selected = Str ''Shirt''\<rparr>
   \<and> map fst (select (select (initialDimensions config0) ''category'' (Str ''Shirt''))
                  ''color'' (Str ''Blue'')) = [''category'', ''color'']"
proof -
  let ?store = "select (initialDimensions config0) ''category'' (Str ''Shirt'')"
  let ?fd = "\<lparr>options = Some [Str ''Red'', Str ''Blue'', Str ''Black''], selected = Str ''Any''\<rparr>"
  have h: "get_prop ?store ''color'' = Some ?fd"
    by (simp add: example_defs)
  have c: "get_prop ?store ''category''
      = Some \<lparr>options = Some [Str ''Shirt'', Str ''Pants'', Str ''Jacket''], selected = Str ''Shirt''\<rparr>"
    by (simp add: example_defs)
  have k: "map fst ?store = [''category'', ''color'']"
    by (simp add: example_defs)
  from select_changes_only_selection [OF h, of "Str ''Blue''"]
  have "get_prop (select ?store ''color'' (Str ''Blue'')) ''color'' = Some (?fd\<lparr>selected := Str ''Blue''\<rparr>)"
    and "get_prop (select ?store ''color'' (Str ''Blue'')) ''category'' = get_prop ?store ''category''"
    and "map fst (select ?store ''color'' (Str ''Blue'')) = map fst ?store"
    by simp_all
  with h c k show ?thesis by simp
qed


subsection \<open>Available options\<close>

text \<open>What the naive \<open>getAvailableOptions\<close> keeps of the configured list.\<close>

lemma getAvailableOptions_char:
  assumes "wf_obj store" and "get_prop config d = Some opts"
  shows "getAvailableOptions items config store d =
      Inr (filter (\<lambda>option. \<exists>it \<in> set items. get_prop it d = Some option \<and>
             (\<forall>key fd. key \<noteq> d \<and> get_prop store key = Some fd \<longrightarrow>
                selected fd = ANY_OPTION \<or> strict_eq (get_prop it key) (selected fd))) opts)"
proof -
  have others: "list_all (\<lambda>(key, sel). sel = ANY_OPTION \<or> strict_eq (get_prop it key) sel)
          (map (\<lambda>(key, dim). (key, selected dim)) (filter (\<lambda>(key, dim). key \<noteq> d) store))
        = (\<forall>key fd. key \<noteq> d \<and> get_prop store key = Some fd \<longrightarrow>
              selected fd = ANY_OPTION \<or> strict_eq (get_prop it key) (selected fd))" for it
    using assms(1) by (auto simp: list_all_iff wf_entry_iff)
  have mem: "array_includes (new_Set (map (\<lambda>it. get_prop it d) (filter P items))) (Some option)
        = (\<exists>it \<in> set items. get_prop it d = Some option \<and> P it)" for P option
    by (force simp: includes_new_Set image_iff)
  show ?thesis
    unfolding getAvailableOptions_def Let_def
    by (simp add: assms(2) mem others)
qed

text \<open>The same for the reconciling store: both branches keep the same options.\<close>

lemma availableOptions_general_char:
  assumes "wf_obj cur"
  shows "availableOptions_general items p cur d =
      filter (\<lambda>option. \<exists>it \<in> set items. get_prop it d = Some option \<and>
             (\<forall>key v. key \<noteq> d \<and> get_prop cur key = Some v \<longrightarrow>
                v = ANY_OPTION \<or> strict_eq (get_prop it key) v)) (prop_options p)"
proof -
  have others: "list_all (\<lambda>(key, v). if key = d \<or> v = ANY_OPTION then True
                                      else strict_eq (get_prop it key) v) cur
        = (\<forall>key v. key \<noteq> d \<and> get_prop cur key = Some v \<longrightarrow>
              v = ANY_OPTION \<or> strict_eq (get_prop it key) v)" for it
    by (auto simp: list_all_entries [OF assms])
  have mem: "array_includes (new_Set (map (\<lambda>it. get_prop it d) (filter P items))) (Some option)
        = (\<exists>it \<in> set items. get_prop it d = Some option \<and> P it)" for P option
    by (force simp: includes_new_Set image_iff)
  show ?thesis
    unfolding availableOptions_general_def Let_def
    by (simp add: mem others)
qed

lemma allOthersAny_iff:
  assumes "wf_obj cur"
  shows "list_all (\<lambda>prop. get_prop cur prop = Some ANY_OPTION)
           (filter (\<lambda>key. key \<noteq> d) (map fst cur))
       = (\<forall>key v. key \<noteq> d \<and> get_prop cur key = Some v \<longrightarrow> v = ANY_OPTION)"
proof
  assume l: "list_all (\<lambda>prop. get_prop cur prop = Some ANY_OPTION)
           (filter (\<lambda>key. key \<noteq> d) (map fst cur))"
  show "\<forall>key v. key \<noteq> d \<and> get_prop cur key = Some v \<longrightarrow> v = ANY_OPTION"
  proof (intro allI impI)
    fix key v
    assume kv: "key \<noteq> d \<and> get_prop cur key = Some v"
    then have "(key, v) \<in> set cur"
      by (auto simp: get_prop_def dest: map_of_SomeD)
    then have "key \<in> set (map fst cur)"
      by (auto intro: rev_image_eqI)
    with l kv have "get_prop cur key = Some ANY_OPTION"
      by (auto simp: list_all_iff)
    with kv show "v = ANY_OPTION" by simp
  qed
next
  assume a: "\<forall>key v. key \<noteq> d \<and> get_prop cur key = Some v \<longrightarrow> v = ANY_OPTION"
  show "list_all (\<lambda>prop. get_prop cur prop = Some ANY_OPTION)
           (filter (\<lambda>key. key \<noteq> d) (map fst cur))"
    unfolding list_all_iff
  proof
    fix key
    assume "key \<in> set (filter (\<lambda>key. key \<noteq> d) (map fst cur))"
    then obtain v where "key \<noteq> d" and "(key, v) \<in> set cur"
      by auto
    with assms have "get_prop cur key = Some v"
      by (simp add: wf_entry_iff)
    with a \<open>key \<noteq> d\<close> show "get_prop cur key = Some ANY_OPTION"
      by auto
  qed
qed

lemma shortcut_char:
  "filter (\<lambda>option. array_includes (getExistingValues items d) (Some option)) opts
     = filter (\<lambda>option. \<exists>it \<in> set items. get_prop it d = Some option) opts"
  by (rule filter_cong) (force simp: getExistingValues_def includes_new_Set image_iff)+

lemma getAvailableOptions_multi_char:
  assumes "wf_obj cur" and "get_prop props d = Some p"
  shows "getAvailableOptions_multi items props cur d =
      Inr (filter (\<lambda>option. \<exists>it \<in> set items. get_prop it d = Some option \<and>
             (\<forall>key v. key \<noteq> d \<and> get_prop cur key = Some v \<longrightarrow>
                v = ANY_OPTION \<or> strict_eq (get_prop it key) v)) (prop_options p))"
proof (cases "\<forall>key v. key \<noteq> d \<and> get_prop cur key = Some v \<longrightarrow> v = ANY_OPTION")
  case True
  then have "(\<exists>it \<in> set items. get_prop it d = Some option \<and>
             (\<forall>key v. key \<noteq> d \<and> get_prop cur key = Some v \<longrightarrow>
                v = ANY_OPTION \<or> strict_eq (get_prop it key) v))
        = (\<exists>it \<in> set items. get_prop it d = Some option)" for option
    by blast
  moreover from True have "list_all (\<lambda>prop. get_prop cur prop = Some ANY_OPTION)
           (filter (\<lambda>key. key \<noteq> d) (map fst cur))"
    by (simp only: allOthersAny_iff [OF assms(1)])
  ultimately show ?thesis
    unfolding getAvailableOptions_multi_def Let_def
    by (simp add: assms shortcut_char)
next
  case False
  then have "\<not> list_all (\<lambda>prop. get_prop cur prop = Some ANY_OPTION)
           (filter (\<lambda>key. key \<noteq> d) (map fst cur))"
    by (simp only: allOthersAny_iff [OF assms(1)] not_False_eq_True)
  then show ?thesis
    unfolding getAvailableOptions_multi_def Let_def
    by (simp add: assms availableOptions_general_char)
qed

text \<open>
  C2. For a dimension of the configuration, \<open>getAvailableOptions\<close> of either store returns
  exactly the values of its configured option list that some item has in that field while
  matching every other dimension's selection (\<open>'Any'\<close> or strictly equal); the dimension's own
  selection does not enter: overwriting it leaves the result unchanged.
\<close>

theorem available_options_spec:
  "(wf_obj store \<and> get_prop config d = Some opts \<longrightarrow>
      getAvailableOptions items config store d =
        Inr (filter (\<lambda>option. \<exists>it \<in> set items. get_prop it d = Some option \<and>
               (\<forall>key fd. key \<noteq> d \<and> get_prop store key = Some fd \<longrightarrow>
                  selected fd = ANY_OPTION \<or> strict_eq (get_prop it key) (selected fd))) opts)
      \<and> getAvailableOptions items config (select store d v) d
          = getAvailableOptions items config store d)
   \<and> (wf_obj cur \<and> get_prop props d = Some p \<longrightarrow>
      getAvailableOptions_multi items props cur d =
        Inr (filter (\<lambda>option. \<exists>it \<in> set items. get_prop it d = Some option \<and>
               (\<forall>key w. key \<noteq> d \<and> get_prop cur key = Some w \<longrightarrow>
                  w = ANY_OPTION \<or> strict_eq (get_prop it key) w)) (prop_options p))
      \<and> getAvailableOptions_multi items props (set_prop cur d v) d
          = getAvailableOptions_multi items props cur d)"
proof (intro conjI impI)
  assume a: "wf_obj store \<and> get_prop config d = Some opts"
  then show "getAvailableOptions items config store d =
        Inr (filter (\<lambda>option. \<exists>it \<in> set items. get_prop it d = Some option \<and>
               (\<forall>key fd. key \<noteq> d \<and> get_prop store key = Some fd \<longrightarrow>
                  selected fd = ANY_OPTION \<or> strict_eq (get_prop it key) (selected fd))) opts)"
    by (simp add: getAvailableOptions_char)
  show "getAvailableOptions items config (select store d v) d
          = getAvailableOptions items config store d"
    unfolding getAvailableOptions_def select_def
    by (simp only: filter_others_set_prop)
next
  assume a: "wf_obj cur \<and> get_prop props d = Some p"
  then have wf: "wf_obj cur" and p: "get_prop props d = Some p"
    by simp_all
  from wf p show "getAvailableOptions_multi items props cur d =
        Inr (filter (\<lambda>option. \<exists>it \<in> set items. get_prop it d = Some option \<and>
               (\<forall>key w. key \<noteq> d \<and> get_prop cur key = Some w \<longrightarrow>
                  w = ANY_OPTION \<or> strict_eq (get_prop it key) w)) (prop_options p))"
    by (rule getAvailableOptions_multi_char)
  from wf have wf': "wf_obj (set_prop cur d v)"
    by (rule wf_set_prop)
  show "getAvailableOptions_multi items props (set_prop cur d v) d
          = getAvailableOptions_multi items props cur d"
    by (simp add: getAvailableOptions_multi_char [OF wf p] getAvailableOptions_multi_char [OF wf' p]
          get_set_prop cong: conj_cong)
qed

theorem available_options_spec_witness:
  "wf_obj (select (initialDimensions config0) ''category'' (Str ''Shirt''))
   \<and> get_prop config0 ''color'' = Some [Str ''Red'', Str ''Blue'', Str ''Black'']
   \<and> getAvailableOptions products config0
        (select (initialDimensions config0) ''category'' (Str ''Shirt'')) ''color''
       = Inr [Str ''Red'', Str ''Black'']
   \<and> filter (\<lambda>option. \<exists>it \<in> set products. get_prop it ''color'' = Some option \<and>
          (\<forall>key fd. key \<noteq> ''color''
              \<and> get_prop (select (initialDimensions config0) ''category'' (Str ''Shirt'')) key = Some fd \<longrightarrow>
             selected fd = ANY_OPTION \<or> strict_eq (get_prop it key) (selected fd)))
        [Str ''Red'', Str ''Blue'', Str ''Black'']
       = [Str ''Red'', Str ''Black'']
   \<and> wf_obj (set_prop (initialState properties0) ''category'' (Str ''Shirt''))
   \<and> getAvailableOptions_multi products properties0
        (set_prop (initialState properties0) ''category'' (Str ''Shirt'')) ''color''
       = Inr [Str ''Red'', Str ''Black'']
   \<and> filter (\<lambda>option. \<exists>it \<in> set products. get_prop it ''color'' = Some option \<and>
          (\<forall>key w. key \<noteq> ''color''
              \<and> get_prop (set_prop (initialState properties0) ''category'' (Str ''Shirt'')) key = Some w \<longrightarrow>
             w = ANY_OPTION \<or> strict_eq (get_prop it key) w))
        [Str ''Red'', Str ''Blue'', Str ''Black'']
       = [Str ''Red'', Str ''Black'']"
proof -
  let ?store = "select (initialDimensions config0) ''category'' (Str ''Shirt'')"
  let ?cur = "set_prop (initialState properties0) ''category'' (Str ''Shirt'')"
  let ?p = "\<lparr>prop_name = ''Color'', prop_options = [Str ''Red'', Str ''Blue'', Str ''Black'']\<rparr>"
  have wf1: "wf_obj ?store" by (simp add: example_defs)
  have wf2: "wf_obj ?cur" by (simp add: example_defs)
  have c: "get_prop config0 ''color'' = Some [Str ''Red'', Str ''Blue'', Str ''Black'']"
    by (simp add: example_defs)
  have p: "get_prop properties0 ''color'' = Some ?p"
    by (simp add: example_defs)
  have e1: "getAvailableOptions products config0 ?store ''color'' = Inr [Str ''Red'', Str ''Black'']"
    by (simp add: example_defs eval_defs)
  have e2: "getAvailableOptions_multi products properties0 ?cur ''color'' = Inr [Str ''Red'', Str ''Black'']"
    by (simp add: example_defs eval_defs)
  let ?spec1 = "filter (\<lambda>option. \<exists>it \<in> set products. get_prop it ''color'' = Some option \<and>
          (\<forall>key fd. key \<noteq> ''color'' \<and> get_prop ?store key = Some fd \<longrightarrow>
             selected fd = ANY_OPTION \<or> strict_eq (get_prop it key) (selected fd)))
        [Str ''Red'', Str ''Blue'', Str ''Black'']"
  let ?spec2 = "filter (\<lambda>option. \<exists>it \<in> set products. get_prop it ''color'' = Some option \<and>
          (\<forall>key w. key \<noteq> ''color'' \<and> get_prop ?cur key = Some w \<longrightarrow>
             w = ANY_OPTION \<or> strict_eq (get_prop it key) w))
        [Str ''Red'', Str ''Blue'', Str ''Black'']"
  have po: "prop_options ?p = [Str ''Red'', Str ''Blue'', Str ''Black'']"
    by simp
  from available_options_spec [of ?store config0 "''color''" "[Str ''Red'', Str ''Blue'', Str ''Black'']"
      products _ ?cur properties0 ?p] wf1 wf2 c p
  have f1: "getAvailableOptions products config0 ?store ''color'' = Inr ?spec1"
    and f2: "getAvailableOptions_multi products properties0 ?cur ''color'' = Inr ?spec2"
    unfolding po by blast+
  from f1 e1 have "Inr ?spec1 = (Inr [Str ''Red'', Str ''Black''] :: error + jsvalue list)"
    by (rule trans [OF sym])
  then have g1: "?spec1 = [Str ''Red'', Str ''Black'']"
    by (simp only: sum.inject)
  from f2 e2 have "Inr ?spec2 = (Inr [Str ''Red'', Str ''Black''] :: error + jsvalue list)"
    by (rule trans [OF sym])
  then have g2: "?spec2 = [Str ''Red'', Str ''Black'']"
    by (simp only: sum.inject)
  from wf1 c e1 g1 wf2 e2 g2 show ?thesis
    by (intro conjI)
qed

lemma selections_get_prop:
  "get_prop (map (\<lambda>(key, fd). (key, selected fd)) store) k = map_option selected (get_prop store k)"
  by (induction store) (auto simp: get_prop_def)

lemma selections_wf: "wf_obj (map (\<lambda>(key, fd). (key, selected fd)) store) = wf_obj store"
  by (simp add: wf_obj_def comp_def case_prod_unfold)

text \<open>The two stores compute the same available options from the same selections.\<close>

lemma naive_agrees_with_multi:
  assumes "wf_obj store" and "get_prop config d = Some (prop_options p)"
    and "get_prop props d = Some p"
  shows "getAvailableOptions items config store d =
      getAvailableOptions_multi items props (map (\<lambda>(key, fd). (key, selected fd)) store) d"
proof -
  let ?cur = "map (\<lambda>(key, fd). (key, selected fd)) store"
  have wf: "wf_obj ?cur"
    using assms(1) by (simp add: selections_wf)
  have "(\<forall>key fd. key \<noteq> d \<and> get_prop store key = Some fd \<longrightarrow>
            selected fd = ANY_OPTION \<or> strict_eq (get_prop it key) (selected fd))
      = (\<forall>key w. key \<noteq> d \<and> get_prop ?cur key = Some w \<longrightarrow>
            w = ANY_OPTION \<or> strict_eq (get_prop it key) w)" for it
    by (auto simp: selections_get_prop)
  then show ?thesis
    by (simp add: getAvailableOptions_char [OF assms(1,2)] getAvailableOptions_multi_char [OF wf assms(3)])
qed

text \<open>
  C7. When every dimension other than the target is \<open>'Any'\<close>, the reconciling store's
  \<open>getAvailableOptions\<close> takes its special-cased branch, and that branch returns what the
  general algorithm returns on the same input (in that store and in the naive one): the
  configured options, in order, that occur in the target field of some item.
\<close>

theorem shortcut_agrees_with_general:
  "wf_obj cur \<Longrightarrow> get_prop props d = Some p \<Longrightarrow>
   \<forall>key w. key \<noteq> d \<and> get_prop cur key = Some w \<longrightarrow> w = ANY_OPTION \<Longrightarrow>
     getAvailableOptions_multi items props cur d
       = Inr (filter (\<lambda>option. array_includes (getExistingValues items d) (Some option))
                (prop_options p))
   \<and> getAvailableOptions_multi items props cur d = Inr (availableOptions_general items p cur d)
   \<and> getAvailableOptions_multi items props cur d
       = Inr (filter (\<lambda>option. \<exists>it \<in> set items. get_prop it d = Some option) (prop_options p))
   \<and> (\<forall>store config. wf_obj store \<and> map (\<lambda>(key, fd). (key, selected fd)) store = cur
           \<and> get_prop config d = Some (prop_options p) \<longrightarrow>
         getAvailableOptions items config store d = getAvailableOptions_multi items props cur d)"
proof -
  assume wf: "wf_obj cur" and p: "get_prop props d = Some p"
    and any: "\<forall>key w. key \<noteq> d \<and> get_prop cur key = Some w \<longrightarrow> w = ANY_OPTION"
  from any have branch: "list_all (\<lambda>prop. get_prop cur prop = Some ANY_OPTION)
           (filter (\<lambda>key. key \<noteq> d) (map fst cur))"
    by (simp only: allOthersAny_iff [OF wf])
  have short: "getAvailableOptions_multi items props cur d
       = Inr (filter (\<lambda>option. array_includes (getExistingValues items d) (Some option))
                (prop_options p))"
    unfolding getAvailableOptions_multi_def Let_def using branch by (simp add: p)
  have "(\<exists>it \<in> set items. get_prop it d = Some option \<and>
             (\<forall>key w. key \<noteq> d \<and> get_prop cur key = Some w \<longrightarrow>
                w = ANY_OPTION \<or> strict_eq (get_prop it key) w))
        = (\<exists>it \<in> set items. get_prop it d = Some option)" for option
    using any by blast
  then have general: "availableOptions_general items p cur d
       = filter (\<lambda>option. \<exists>it \<in> set items. get_prop it d = Some option) (prop_options p)"
    by (simp add: availableOptions_general_char [OF wf])
  have existing: "getAvailableOptions_multi items props cur d
       = Inr (filter (\<lambda>option. \<exists>it \<in> set items. get_prop it d = Some option) (prop_options p))"
    by (simp only: short shortcut_char)
  have naive: "getAvailableOptions items config store d = getAvailableOptions_multi items props cur d"
    if "wf_obj store \<and> map (\<lambda>(key, fd). (key, selected fd)) store = cur
           \<and> get_prop config d = Some (prop_options p)" for store config
    using that naive_agrees_with_multi [of store config d p props items] p by auto
  from short general existing naive show ?thesis
    by (intro conjI allI impI) simp_all
qed

theorem shortcut_agrees_with_general_witness:
  "wf_obj (set_prop (initialState properties0) ''category'' (Str ''Shirt''))
   \<and> getAvailableOptions_multi products properties0
        (set_prop (initialState properties0) ''category'' (Str ''Shirt'')) ''category''
      = Inr [Str ''Shirt'', Str ''Pants'']
   \<and> availableOptions_general products
        \<lparr>prop_name = ''Category'', prop_options = [Str ''Shirt'', Str ''Pants'', Str ''Jacket'']\<rparr>
        (set_prop (initialState properties0) ''category'' (Str ''Shirt'')) ''category''
      = [Str ''Shirt'', Str ''Pants'']"
proof -
  let ?cur = "set_prop (initialState properties0) ''category'' (Str ''Shirt'')"
  let ?p = "\<lparr>prop_name = ''Category'', prop_options = [Str ''Shirt'', Str ''Pants'', Str ''Jacket'']\<rparr>"
  have wf: "wf_obj ?cur" by (simp add: example_defs)
  have p: "get_prop properties0 ''category'' = Some ?p" by (simp add: example_defs)
  have any: "\<forall>key w. key \<noteq> ''category'' \<and> get_prop ?cur key = Some w \<longrightarrow> w = ANY_OPTION"
    by (auto simp: example_defs split: if_splits)
  have e: "getAvailableOptions_multi products properties0 ?cur ''category'' = Inr [Str ''Shirt'', Str ''Pants'']"
    by (simp add: example_defs eval_defs)
  from shortcut_agrees_with_general [OF wf p any, of products]
  have "getAvailableOptions_multi products properties0 ?cur ''category''
      = Inr (availableOptions_general products ?p ?cur ''category'')"
    by blast
  with e have "availableOptions_general products ?p ?cur ''category'' = [Str ''Shirt'', Str ''Pants'']"
    by simp
  with e wf show ?thesis by simp
qed

lemma filter_result_shape:
  "r = filter P opts \<Longrightarrow>
     subseq r opts \<and> r = filter (\<lambda>option. option \<in> set r) opts \<and> (distinct opts \<longrightarrow> distinct r)"
  by (auto intro: filter_cong)

lemma getAvailableOptions_is_filter:
  "get_prop config d = Some opts \<Longrightarrow> \<exists>P. getAvailableOptions items config store d = Inr (filter P opts)"
  unfolding getAvailableOptions_def Let_def by auto

lemma getAvailableOptions_multi_is_filter:
  "get_prop props d = Some p \<Longrightarrow>
   \<exists>P. getAvailableOptions_multi items props cur d = Inr (filter P (prop_options p))"
  unfolding getAvailableOptions_multi_def availableOptions_general_def Let_def
  by (auto split: if_splits)

text \<open>
  C6 (amended). The available options of a configured dimension are a subsequence of its
  configured option list: the order is kept, and every value that is kept is kept with all its
  occurrences, so the result has no duplicates when the configured list has none.
\<close>

theorem available_options_keep_order:
  "(get_prop config d = Some opts \<longrightarrow>
      (\<exists>r. getAvailableOptions items config store d = Inr r \<and> subseq r opts
          \<and> r = filter (\<lambda>option. option \<in> set r) opts \<and> (distinct opts \<longrightarrow> distinct r)))
   \<and> (get_prop props d = Some p \<longrightarrow>
      (\<exists>r. getAvailableOptions_multi items props cur d = Inr r \<and> subseq r (prop_options p)
          \<and> r = filter (\<lambda>option. option \<in> set r) (prop_options p)
          \<and> (distinct (prop_options p) \<longrightarrow> distinct r)))"
proof (intro conjI impI)
  assume "get_prop config d = Some opts"
  then obtain P where "getAvailableOptions items config store d = Inr (filter P opts)"
    using getAvailableOptions_is_filter by blast
  then show "\<exists>r. getAvailableOptions items config store d = Inr r \<and> subseq r opts
          \<and> r = filter (\<lambda>option. option \<in> set r) opts \<and> (distinct opts \<longrightarrow> distinct r)"
    using filter_result_shape [of "filter P opts" P opts] by blast
next
  assume "get_prop props d = Some p"
  then obtain P where "getAvailableOptions_multi items props cur d = Inr (filter P (prop_options p))"
    using getAvailableOptions_multi_is_filter by blast
  then show "\<exists>r. getAvailableOptions_multi items props cur d = Inr r \<and> subseq r (prop_options p)
          \<and> r = filter (\<lambda>option. option \<in> set r) (prop_options p)
          \<and> (distinct (prop_options p) \<longrightarrow> distinct r)"
    using filter_result_shape [of "filter P (prop_options p)" P "prop_options p"] by blast
qed

theorem available_options_keep_order_witness:
  "get_prop config0 ''color'' = Some [Str ''Red'', Str ''Blue'', Str ''Black'']
   \<and> getAvailableOptions products config0
        (select (initialDimensions config0) ''category'' (Str ''Shirt'')) ''color''
       = Inr [Str ''Red'', Str ''Black'']
   \<and> subseq [Str ''Red'', Str ''Black''] [Str ''Red'', Str ''Blue'', Str ''Black'']
   \<and> distinct [Str ''Red'', Str ''Blue'', Str ''Black'']
   \<and> distinct [Str ''Red'', Str ''Black'']"
proof -
  let ?store = "select (initialDimensions config0) ''category'' (Str ''Shirt'')"
  have c: "get_prop config0 ''color'' = Some [Str ''Red'', Str ''Blue'', Str ''Black'']"
    by (simp add: example_defs)
  have e: "getAvailableOptions products config0 ?store ''color'' = Inr [Str ''Red'', Str ''Black'']"
    by (simp add: example_defs eval_defs)
  from available_options_keep_order [of config0 "''color''" "[Str ''Red'', Str ''Blue'', Str ''Black'']"
      products ?store] c e
  have "subseq [Str ''Red'', Str ''Black''] [Str ''Red'', Str ''Blue'', Str ''Black'']"
    by auto
  with c e show ?thesis by simp
qed

theorem available_options_duplicates_counterexample:
  "getAvailableOptions products [(''color'', [Str ''Red'', Str ''Red''])]
      (initialDimensions [(''color'', [Str ''Red'', Str ''Red''])]) ''color''
     = Inr [Str ''Red'', Str ''Red'']
   \<and> getAvailableOptions_multi products
        [(''color'', \<lparr>prop_name = ''Color'', prop_options = [Str ''Red'', Str ''Red'']\<rparr>)]
        (initialState [(''color'', \<lparr>prop_name = ''Color'', prop_options = [Str ''Red'', Str ''Red'']\<rparr>)])
        ''color''
     = Inr [Str ''Red'', Str ''Red'']
   \<and> \<not> distinct [Str ''Red'', Str ''Red'']"
  by (simp add: example_defs eval_defs)


subsection \<open>A dimension and its own selection\<close>

lemma nonempty_filter_obtain:
  assumes "filter P xs \<noteq> []"
  obtains x where "x \<in> set xs" and "P x"
  using assms by (induction xs) (auto split: if_splits)

lemma own_selection_naive:
  assumes d: "get_prop store d = Some fd" and c: "get_prop config d = Some opts"
    and opt: "selected fd \<in> set opts" and sel: "selected fd \<noteq> ANY_OPTION"
    and ne: "filteredItems items store \<noteq> []"
  shows "\<exists>r. getAvailableOptions items config store d = Inr r \<and> selected fd \<in> set r"
proof -
  from ne obtain it where it: "it \<in> set items"
    and all: "list_all (\<lambda>(key, dim). selected dim = ANY_OPTION
                \<or> strict_eq (get_prop it key) (selected dim)) store"
    unfolding filteredItems_def by (rule nonempty_filter_obtain)
  from d have "(d, fd) \<in> set store"
    by (auto simp: get_prop_def dest: map_of_SomeD)
  with all sel have own: "get_prop it d = Some (selected fd)"
    by (auto simp: list_all_iff strict_eq_def)
  from all have others: "list_all (\<lambda>(key, sel). sel = ANY_OPTION \<or> strict_eq (get_prop it key) sel)
      (map (\<lambda>(key, dim). (key, selected dim)) (filter (\<lambda>(key, dim). key \<noteq> d) store))"
    by (auto simp: list_all_iff)
  from it own others opt show ?thesis
    unfolding getAvailableOptions_def Let_def
    by (force simp: c includes_new_Set image_iff)
qed

lemma own_selection_multi:
  assumes d: "get_prop cur d = Some v" and p: "get_prop props d = Some p"
    and opt: "v \<in> set (prop_options p)" and sel: "v \<noteq> ANY_OPTION"
    and ne: "getFilteredItems items cur \<noteq> []"
  shows "\<exists>r. getAvailableOptions_multi items props cur d = Inr r \<and> v \<in> set r"
proof -
  from ne obtain it where it: "it \<in> set items"
    and all: "list_all (\<lambda>(key, v). v = ANY_OPTION \<or> strict_eq (get_prop it key) v) cur"
    unfolding getFilteredItems_def by (rule nonempty_filter_obtain)
  from d have "(d, v) \<in> set cur"
    by (auto simp: get_prop_def dest: map_of_SomeD)
  with all sel have own: "get_prop it d = Some v"
    by (auto simp: list_all_iff strict_eq_def)
  from all have others: "list_all (\<lambda>(key, v). if key = d \<or> v = ANY_OPTION then True
                                      else strict_eq (get_prop it key) v) cur"
    by (auto simp: list_all_iff)
  from it own have short: "array_includes (getExistingValues items d) (Some v)"
    by (force simp: getExistingValues_def includes_new_Set image_iff)
  from it others have "it \<in> set (filter (\<lambda>it. list_all (\<lambda>(key, v).
              if key = d \<or> v = ANY_OPTION then True
              else strict_eq (get_prop it key) v) cur) items)"
    by simp
  then have "get_prop it d \<in> set (map (\<lambda>it. get_prop it d) (filter (\<lambda>it. list_all (\<lambda>(key, v).
              if key = d \<or> v = ANY_OPTION then True
              else strict_eq (get_prop it key) v) cur) items))"
    by (simp only: set_map) (rule imageI)
  with own opt have general: "v \<in> set (availableOptions_general items p cur d)"
    unfolding availableOptions_general_def Let_def
    by (simp add: includes_new_Set)
  from short general opt show ?thesis
    unfolding getAvailableOptions_multi_def Let_def by (simp add: p)
qed

text \<open>
  C5 (amended). In every Filter State, a dimension's selection that is not \<open>'Any'\<close> and is one
  of its configured options appears in that dimension's own available options whenever at
  least one item matches the whole state, in both stores.
\<close>

theorem own_selection_available_when_items_match:
  "(get_prop store d = Some fd \<and> get_prop config d = Some opts \<and> selected fd \<in> set opts
      \<and> selected fd \<noteq> ANY_OPTION \<and> filteredItems items store \<noteq> [] \<longrightarrow>
      (\<exists>r. getAvailableOptions items config store d = Inr r \<and> selected fd \<in> set r))
   \<and> (get_prop cur d = Some v \<and> get_prop props d = Some p \<and> v \<in> set (prop_options p)
      \<and> v \<noteq> ANY_OPTION \<and> getFilteredItems items cur \<noteq> [] \<longrightarrow>
      (\<exists>r. getAvailableOptions_multi items props cur d = Inr r \<and> v \<in> set r))"
  using own_selection_naive [of store d fd config opts items]
    own_selection_multi [of cur d v props p items]
  by blast

theorem own_selection_available_when_items_match_witness:
  "get_prop (select (initialDimensions config0) ''category'' (Str ''Shirt'')) ''category''
      = Some \<lparr>options = Some [Str ''Shirt'', Str ''Pants'', Str ''Jacket''], selected = Str ''Shirt''\<rparr>
   \<and> filteredItems products (select (initialDimensions config0) ''category'' (Str ''Shirt'')) \<noteq> []
   \<and> getAvailableOptions products config0
        (select (initialDimensions config0) ''category'' (Str ''Shirt'')) ''category''
      = Inr [Str ''Shirt'', Str ''Pants'']
   \<and> Str ''Shirt'' \<in> set [Str ''Shirt'', Str ''Pants'']"
proof -
  let ?store = "select (initialDimensions config0) ''category'' (Str ''Shirt'')"
  let ?fd = "\<lparr>options = Some [Str ''Shirt'', Str ''Pants'', Str ''Jacket''], selected = Str ''Shirt''\<rparr>"
  have d: "get_prop ?store ''category'' = Some ?fd"
    by (simp add: example_defs)
  have c: "get_prop config0 ''category'' = Some [Str ''Shirt'', Str ''Pants'', Str ''Jacket'']"
    by (simp add: example_defs)
  have ne: "filteredItems products ?store \<noteq> []"
    by (simp add: example_defs filteredItems_def strict_eq_def)
  have e: "getAvailableOptions products config0 ?store ''category'' = Inr [Str ''Shirt'', Str ''Pants'']"
    by (simp add: example_defs eval_defs)
  have sel: "selected ?fd \<noteq> ANY_OPTION" "selected ?fd \<in> set [Str ''Shirt'', Str ''Pants'', Str ''Jacket'']"
    by (simp_all add: ANY_OPTION_def)
  from own_selection_available_when_items_match [of ?store "''category''" ?fd config0
      "[Str ''Shirt'', Str ''Pants'', Str ''Jacket'']" products] d c ne sel
  have "\<exists>r. getAvailableOptions products config0 ?store ''category'' = Inr r \<and> selected ?fd \<in> set r"
    by blast
  with e have "Str ''Shirt'' \<in> set [Str ''Shirt'', Str ''Pants'']"
    by simp
  with d ne e show ?thesis by blast
qed

theorem own_selection_unavailable_counterexample:
  "get_prop (select (initialDimensions config0) ''category'' (Str ''Jacket'')) ''category''
      = Some \<lparr>options = Some [Str ''Shirt'', Str ''Pants'', Str ''Jacket''], selected = Str ''Jacket''\<rparr>
   \<and> Str ''Jacket'' \<noteq> ANY_OPTION
   \<and> getAvailableOptions products config0
        (select (initialDimensions config0) ''category'' (Str ''Jacket'')) ''category''
      = Inr [Str ''Shirt'', Str ''Pants'']
   \<and> Str ''Jacket'' \<notin> set [Str ''Shirt'', Str ''Pants'']
   \<and> get_prop (select (select (initialDimensions config0) ''category'' (Str ''Shirt''))
         ''color'' (Str ''Blue'')) ''color''
      = Some \<lparr>options = Some [Str ''Red'', Str ''Blue'', Str ''Black''], selected = Str ''Blue''\<rparr>
   \<and> getAvailableOptions products config0
        (select (select (initialDimensions config0) ''category'' (Str ''Shirt''))
           ''color'' (Str ''Blue'')) ''color''
      = Inr [Str ''Red'', Str ''Black'']
   \<and> Str ''Blue'' \<notin> set [Str ''Red'', Str ''Black'']
   \<and> updateProperty products properties0 ''category'' (Str ''Jacket'')
        (createMultiFilterStore properties0)
      = Inr \<lparr>filterStore = [(''category'', Str ''Jacket''), (''color'', Str ''Any'')],
             currentState = [(''category'', Str ''Jacket''), (''color'', Str ''Any'')]\<rparr>
   \<and> getAvailableOptions_multi products properties0
        [(''category'', Str ''Jacket''), (''color'', Str ''Any'')] ''category''
      = Inr [Str ''Shirt'', Str ''Pants'']"
  by (simp add: example_defs eval_defs)


subsection \<open>Updates: unknown names and reconciliation\<close>


















text \<open>
  C3. The reconciliation in \<open>updateProperty\<close> tests each other dimension against the
  available options computed from the state before the update. On the documented example,
  choosing the colour Blue while the category Shirt is selected leaves the category at Shirt,
  although the category's available options under the new state are Pants alone, and the
  state then matches no item.
\<close>

theorem update_reconciles_against_old_state:
  "updateProperty products properties0 ''category'' (Str ''Shirt'')
       (createMultiFilterStore properties0)
     = Inr \<lparr>filterStore = [(''category'', Str ''Shirt''), (''color'', Str ''Any'')],
            currentState = [(''category'', Str ''Shirt''), (''color'', Str ''Any'')]\<rparr>
   \<and> updateProperty products properties0 ''color'' (Str ''Blue'')
        \<lparr>filterStore = [(''category'', Str ''Shirt''), (''color'', Str ''Any'')],
         currentState = [(''category'', Str ''Shirt''), (''color'', Str ''Any'')]\<rparr>
     = Inr \<lparr>filterStore = [(''category'', Str ''Shirt''), (''color'', Str ''Blue'')],
            currentState = [(''category'', Str ''Shirt''), (''color'', Str ''Blue'')]\<rparr>
   \<and> getAvailableOptions_multi products properties0
        [(''category'', Str ''Shirt''), (''color'', Str ''Any'')] ''category''
     = Inr [Str ''Shirt'', Str ''Pants'']
   \<and> getAvailableOptions_multi products properties0
        [(''category'', Str ''Shirt''), (''color'', Str ''Blue'')] ''category''
     = Inr [Str ''Pants'']
   \<and> getFilteredItems products [(''category'', Str ''Shirt''), (''color'', Str ''Blue'')] = []"
  by (simp add: example_defs eval_defs getFilteredItems_def)

end
